theory Spec2Isabelle
  imports Complex_Main "HOL-Library.Product_Lexorder" "HOL-Library.Multiset"
begin

section \<open>Python values\<close>

text \<open>
  The influencer search service is Python. Its criteria are dictionaries from string keys
  to values that come either from the rule-based parser (\<open>manual_criteria_parsing\<close>) or
  from a JSON document produced by the language model. The values modelled here are
  strings, numbers (unbounded ints, floats) and flat lists of numbers; JSON null, booleans,
  objects and lists with other elements are outside the model.

  Strings are lists of 8-bit characters, the UTF-8 bytes of the Python string. On ASCII
  text the model is exact. Beyond ASCII it is not: \<open>lower()\<close>, the classes \<open>\d\<close> and
  \<open>\s\<close> of \<open>re\<close> and the literals of \<open>int()\<close> and \<open>float()\<close> know the Unicode letters,
  decimal digits and white space, which the definitions below leave alone (\<open>\d\<close> matches
  an Arabic-Indic digit, \<open>\s\<close> a no-break space, and \<open>float()\<close> reads a literal written
  in such digits). A theorem whose truth depends on these classes therefore assumes that
  the text it reads is ASCII (\<open>ascii\<close>, \<open>ascii_value\<close>).

  A finite float is modelled by the rational number it denotes, next to the three special
  values. Rounding to 53 bits is not modelled: \<open>float()\<close> of an int or of a decimal
  literal is its exact value, and negative zero is zero. The limit some interpreters put
  on the number of digits that \<open>int()\<close> reads is not modelled either.
\<close>

datatype pyfloat = Finite rat | PosInf | NegInf | NaN

datatype pynum = PyInt int | PyFloat pyfloat

datatype pyval = PStr string | PNum pynum | PList "pynum list"

datatype error = ValueError | TypeError | AttributeError | OverflowError

type_synonym criteria = "string \<rightharpoonup> pyval"

subsection \<open>Characters and substrings\<close>

definition is_digit :: "char \<Rightarrow> bool" where
  \<comment> \<open>\<open>\d\<close> on ASCII\<close>
  "is_digit c = (c \<in> set ''0123456789'')"

definition is_space :: "char \<Rightarrow> bool" where
  \<comment> \<open>\<open>\s\<close> of \<open>re\<close> on ASCII: tab, LF, VT, FF, CR, the separators 0x1C..0x1F, space\<close>
  "is_space c = (c \<in> set [CHR 0x09, CHR 0x0A, CHR 0x0B, CHR 0x0C, CHR 0x0D,
                            CHR 0x1C, CHR 0x1D, CHR 0x1E, CHR 0x1F, CHR 0x20])"




definition lower_char :: "char \<Rightarrow> char" where
  "lower_char c = (case map_of (zip ''ABCDEFGHIJKLMNOPQRSTUVWXYZ'' ''abcdefghijklmnopqrstuvwxyz'') c of
                     Some l \<Rightarrow> l | None \<Rightarrow> c)"

definition py_lower :: "string \<Rightarrow> string" where
  \<comment> \<open>\<open>s.lower()\<close>\<close>
  "py_lower s = map lower_char s"

definition startswith :: "string \<Rightarrow> string \<Rightarrow> bool" where
  \<comment> \<open>\<open>s.startswith(p)\<close>, written \<open>startswith p s\<close>\<close>
  "startswith p s = (take (length p) s = p)"

fun py_in :: "string \<Rightarrow> string \<Rightarrow> bool" where
  \<comment> \<open>\<open>p in s\<close> on strings: \<open>p\<close> occurs in \<open>s\<close> as a contiguous substring\<close>
  "py_in p [] = (p = [])"
| "py_in p (c # cs) = (startswith p (c # cs) \<or> py_in p cs)"

definition digit_val :: "char \<Rightarrow> int" where
  "digit_val c = int (of_char c) - 48"

definition int_of_digits :: "string \<Rightarrow> int" where
  \<comment> \<open>\<open>int(d)\<close> for a non-empty string of decimal digits\<close>
  "int_of_digits d = foldl (\<lambda>n c. 10 * n + digit_val c) 0 d"

section \<open>The rule-based parser (influencer\_utils.py)\<close>

subsection \<open>The age pattern\<close>

text \<open>
  \<^verbatim>\<open>under (\d+)|over (\d+)|(\d+)\s*-\s*(\d+)|(\d+)\s*to\s*(\d+)|below (\d+)|above (\d+)\<close>

  A match is the map from group numbers 1..8 to the text each group captured; a group that
  took no part is absent (\<open>group(i)\<close> is \<open>None\<close>). In every alternative a greedy
  \<open>\d+\<close> or \<open>\s*\<close> is followed by a character outside its class (or by nothing), so
  giving characters back never helps and the backtracking matcher takes the longest run;
  \<open>takeWhile\<close> and \<open>dropWhile\<close> say that.
\<close>

type_synonym match = "nat \<rightharpoonup> string"

definition match_keyword :: "string \<Rightarrow> nat \<Rightarrow> string \<Rightarrow> match option" where
  \<comment> \<open>\<open>kw(\d+)\<close> at the start of \<open>s\<close>, capturing into group \<open>g\<close>\<close>
  "match_keyword kw g s =
     (if startswith kw s then
        (let d = takeWhile is_digit (drop (length kw) s)
         in if d \<noteq> [] then Some [g \<mapsto> d] else None)
      else None)"

definition match_pair :: "string \<Rightarrow> nat \<Rightarrow> string \<Rightarrow> match option" where
  \<comment> \<open>\<open>(\d+)\s*sep\s*(\d+)\<close> at the start of \<open>s\<close>, capturing into groups \<open>g\<close> and \<open>g + 1\<close>\<close>
  "match_pair sep g s =
     (let d1 = takeWhile is_digit s;
          r1 = dropWhile is_space (dropWhile is_digit s)
      in if d1 \<noteq> [] \<and> startswith sep r1 then
           (let d2 = takeWhile is_digit (dropWhile is_space (drop (length sep) r1))
            in if d2 \<noteq> [] then Some [g \<mapsto> d1, Suc g \<mapsto> d2] else None)
         else None)"

fun first_some :: "'a option list \<Rightarrow> 'a option" where
  "first_some [] = None"
| "first_some (None # xs) = first_some xs"
| "first_some (Some x # xs) = Some x"

definition match_at :: "string \<Rightarrow> match option" where
  \<comment> \<open>the pattern anchored at the start of \<open>s\<close>: the alternatives in their order\<close>
  "match_at s = first_some
     [match_keyword ''under '' 1 s, match_keyword ''over '' 2 s,
      match_pair ''-'' 3 s, match_pair ''to'' 5 s,
      match_keyword ''below '' 7 s, match_keyword ''above '' 8 s]"

fun re_search :: "string \<Rightarrow> match option" where
  \<comment> \<open>\<open>re.search(age_pattern, s)\<close>: the match at the leftmost position that has one\<close>
  "re_search [] = match_at []"
| "re_search (c # cs) = (case match_at (c # cs) of Some m \<Rightarrow> Some m | None \<Rightarrow> re_search cs)"

definition truthy :: "string option \<Rightarrow> bool" where
  \<comment> \<open>\<open>if age_match.group(i):\<close> \<open>None\<close> and the empty string are false\<close>
  "truthy g = (case g of None \<Rightarrow> False | Some s \<Rightarrow> s \<noteq> [])"

definition group_int :: "match \<Rightarrow> nat \<Rightarrow> pynum" where
  \<comment> \<open>\<open>int(age_match.group(i))\<close>, called on groups that matched\<close>
  "group_int m i = PyInt (case m i of None \<Rightarrow> 0 | Some d \<Rightarrow> int_of_digits d)"

definition age_range_of :: "match \<Rightarrow> pyval option" where
  "age_range_of m =
     (if truthy (m 1) then Some (PList [PyInt 18, group_int m 1])
      else if truthy (m 2) then Some (PList [group_int m 2, PyInt 65])
      else if truthy (m 3) \<and> truthy (m 4) then Some (PList [group_int m 3, group_int m 4])
      else if truthy (m 5) \<and> truthy (m 6) then Some (PList [group_int m 5, group_int m 6])
      else if truthy (m 7) then Some (PList [PyInt 18, group_int m 7])
      else if truthy (m 8) then Some (PList [group_int m 8, PyInt 65])
      else None)"

subsection \<open>Keyword tables\<close>

definition gender_keywords :: "(string \<times> string list) list" where
  "gender_keywords =
     [(''female'', [''female'', ''woman'', ''women'', ''girl'', ''she'', ''her'']),
      (''male'', [''male'', ''man'', ''men'', ''boy'', ''he'', ''him''])]"

definition platform_map :: "(string \<times> string) list" where
  "platform_map =
     [(''instagram'', ''ig''), (''youtube'', ''yt''), (''facebook'', ''fb''), (''tiktok'', ''tiktok''),
      (''ig'', ''ig''), (''insta'', ''ig''), (''yt'', ''yt''), (''fb'', ''fb'')]"

definition category_map :: "(string \<times> string) list" where
  "category_map =
     [(''fitness'', ''fitness''), (''fit'', ''fitness''), (''workout'', ''fitness''),
      (''gym'', ''fitness''), (''exercise'', ''fitness''),
      (''tech'', ''tech''), (''technology'', ''tech''), (''gadgets'', ''tech''),
      (''fashion'', ''fashion''), (''style'', ''fashion''), (''clothing'', ''fashion''),
      (''food'', ''food''), (''cooking'', ''food''), (''cuisine'', ''food''), (''recipe'', ''food''),
      (''travel'', ''travel''), (''tourism'', ''travel''), (''adventure'', ''travel'')]"

fun detect_gender :: "(string \<times> string list) list \<Rightarrow> string \<Rightarrow> string option" where
  \<comment> \<open>the loop over \<open>gender_keywords.items()\<close> with its \<open>break\<close>\<close>
  "detect_gender [] user_input = None"
| "detect_gender ((gender, keywords) # rest) user_input =
     (if list_ex (\<lambda>kw. py_in kw user_input) keywords then Some gender
      else detect_gender rest user_input)"

fun scan_table :: "(string \<times> string) list \<Rightarrow> string \<Rightarrow> string option" where
  \<comment> \<open>the loops over \<open>platform_map.items()\<close> and \<open>category_map.items()\<close> with their \<open>break\<close>\<close>
  "scan_table [] user_input = None"
| "scan_table ((keyword, code) # rest) user_input =
     (if py_in keyword user_input then Some code else scan_table rest user_input)"

definition put :: "string \<Rightarrow> pyval option \<Rightarrow> criteria \<Rightarrow> criteria" where
  \<comment> \<open>\<open>criteria[k] = v\<close> when the rule found a value, nothing otherwise\<close>
  "put k v c = (case v of None \<Rightarrow> c | Some x \<Rightarrow> c(k \<mapsto> x))"

definition manual_criteria_parsing :: "string \<Rightarrow> criteria" where
  "manual_criteria_parsing text =
     (let user_input = py_lower text;
          c0 = Map.empty;
          c1 = put ''gender'' (map_option PStr (detect_gender gender_keywords user_input)) c0;
          c2 = put ''age_range'' (Option.bind (re_search user_input) age_range_of) c1;
          c3 = put ''platform'' (map_option PStr (scan_table platform_map user_input)) c2;
          c4 = put ''category'' (map_option PStr (scan_table category_map user_input)) c3
      in c4)"

section \<open>Merging the two extractions (main.py)\<close>

definition merge_criteria :: "criteria \<Rightarrow> criteria \<Rightarrow> criteria" where
  \<comment> \<open>\<open>{**ai_criteria, **manual_criteria}\<close>\<close>
  "merge_criteria ai_criteria manual_criteria = ai_criteria ++ manual_criteria"

section \<open>Built-ins used by the search\<close>

subsection \<open>Numbers to text\<close>

function digits_of :: "int \<Rightarrow> string" where
  \<comment> \<open>the decimal digits of a non-negative int\<close>
  "digits_of n = (if n < 10 then [''0123456789'' ! nat n]
                  else digits_of (n div 10) @ [''0123456789'' ! nat (n mod 10)])"
  by pat_completeness auto
termination
  by (relation "measure nat") auto

declare digits_of.simps [simp del]

definition str_int :: "int \<Rightarrow> string" where
  \<comment> \<open>\<open>str(i)\<close> for an int\<close>
  "str_int i = (if i < 0 then ''-'' @ digits_of (- i) else digits_of i)"

fun group_thousands :: "string \<Rightarrow> string" where
  \<comment> \<open>the \<open>,\<close> option of the format mini-language on a run of digits\<close>
  "group_thousands ds =
     (if length ds \<le> 3 then ds
      else group_thousands (take (length ds - 3) ds) @ '','' @ drop (length ds - 3) ds)"

declare group_thousands.simps [simp del]

definition group_sign :: "string \<Rightarrow> string" where
  \<comment> \<open>grouping applied to the digits before the point of a rendered number\<close>
  "group_sign s =
     (let sgn = (if startswith ''-'' s then ''-'' else []);
          body = drop (length sgn) s
      in sgn @ group_thousands (takeWhile is_digit body) @ dropWhile is_digit body)"

definition round_half_even :: "rat \<Rightarrow> int" where
  "round_half_even q =
     (let f = \<lfloor>q\<rfloor>; r = q - of_int f
      in if r < 1 / 2 then f else if 1 / 2 < r then f + 1 else if even f then f else f + 1)"

definition str_float :: "(rat \<Rightarrow> string) \<Rightarrow> pyfloat \<Rightarrow> string" where
  \<comment> \<open>\<open>repr\<close> of a float. The shortest decimal that reads back as the same double depends on
      the binary format, so the rendering of finite floats is the parameter \<open>repr_float\<close>.\<close>
  "str_float repr_float f =
     (case f of Finite q \<Rightarrow> repr_float q | PosInf \<Rightarrow> ''inf'' | NegInf \<Rightarrow> ''-inf'' | NaN \<Rightarrow> ''nan'')"

definition str_num :: "(rat \<Rightarrow> string) \<Rightarrow> pynum \<Rightarrow> string" where
  "str_num repr_float n = (case n of PyInt i \<Rightarrow> str_int i | PyFloat f \<Rightarrow> str_float repr_float f)"

fun join :: "string \<Rightarrow> string list \<Rightarrow> string" where
  \<comment> \<open>\<open>sep.join(xs)\<close>\<close>
  "join sep [] = []"
| "join sep [x] = x"
| "join sep (x # y # ys) = x @ sep @ join sep (y # ys)"

definition py_str :: "(rat \<Rightarrow> string) \<Rightarrow> pyval \<Rightarrow> string" where
  \<comment> \<open>\<open>f"{v}"\<close>\<close>
  "py_str repr_float v =
     (case v of PStr s \<Rightarrow> s
      | PNum n \<Rightarrow> str_num repr_float n
      | PList l \<Rightarrow> ''['' @ join '', '' (map (str_num repr_float) l) @ '']'')"

definition float_max_bound :: int where
  \<comment> \<open>from here on an int or a decimal literal rounds past the largest double\<close>
  "float_max_bound = 2 ^ 1024 - 2 ^ 970"

definition format_comma :: "(rat \<Rightarrow> string) \<Rightarrow> pyval \<Rightarrow> error + string" where
  \<comment> \<open>\<open>f"{v:,}"\<close>\<close>
  "format_comma repr_float v =
     (case v of PNum (PyInt i) \<Rightarrow> Inr (group_sign (str_int i))
      | PNum (PyFloat f) \<Rightarrow> Inr (group_sign (str_float repr_float f))
      | PStr s \<Rightarrow> Inl ValueError
      | PList l \<Rightarrow> Inl TypeError)"

definition format_2f :: "pyfloat \<Rightarrow> string" where
  "format_2f f =
     (case f of
        Finite q \<Rightarrow>
          (let n = round_half_even (\<bar>q\<bar> * 100)
           in (if q < 0 then ''-'' else []) @ group_thousands (digits_of (n div 100)) @ ''.''
              @ digits_of (n mod 100 div 10) @ digits_of (n mod 10))
      | PosInf \<Rightarrow> ''inf'' | NegInf \<Rightarrow> ''-inf'' | NaN \<Rightarrow> ''nan'')"

definition format_comma_2f :: "pyval \<Rightarrow> error + string" where
  \<comment> \<open>\<open>f"{v:,.2f}"\<close>: an int is converted to float first\<close>
  "format_comma_2f v =
     (case v of
        PNum (PyInt i) \<Rightarrow>
          (if \<bar>i\<bar> < float_max_bound then Inr (format_2f (Finite (of_int i))) else Inl OverflowError)
      | PNum (PyFloat f) \<Rightarrow> Inr (format_2f f)
      | PStr s \<Rightarrow> Inl ValueError
      | PList l \<Rightarrow> Inl TypeError)"

subsection \<open>Text and numbers to numbers\<close>

definition is_cspace :: "char \<Rightarrow> bool" where
  \<comment> \<open>the white space \<open>int()\<close> and \<open>float()\<close> strip from an ASCII literal\<close>
  "is_cspace c = (c \<in> set [CHR 0x09, CHR 0x0A, CHR 0x0B, CHR 0x0C, CHR 0x0D, CHR 0x20])"

definition strip :: "string \<Rightarrow> string" where
  "strip s = rev (dropWhile is_cspace (rev (dropWhile is_cspace s)))"

fun digitpart :: "string \<Rightarrow> bool" where
  \<comment> \<open>digits, with single underscores allowed between two digits\<close>
  "digitpart [] = False"
| "digitpart [c] = is_digit c"
| "digitpart (c # d # cs) =
     (is_digit c \<and> (if d = CHR ''_'' then digitpart cs else digitpart (d # cs)))"

definition split_sign :: "string \<Rightarrow> int \<times> string" where
  "split_sign s =
     (if startswith ''-'' s then (- 1, drop 1 s)
      else if startswith ''+'' s then (1, drop 1 s)
      else (1, s))"

definition int_of_str :: "string \<Rightarrow> error + int" where
  \<comment> \<open>\<open>int(s)\<close> for a string\<close>
  "int_of_str s =
     (let (sg, body) = split_sign (strip s)
      in if digitpart body then Inr (sg * int_of_digits (filter is_digit body)) else Inl ValueError)"

definition truncate :: "rat \<Rightarrow> int" where
  \<comment> \<open>towards zero\<close>
  "truncate q = (if 0 \<le> q then \<lfloor>q\<rfloor> else \<lceil>q\<rceil>)"

definition py_int :: "pyval \<Rightarrow> error + int" where
  \<comment> \<open>\<open>int(v)\<close>\<close>
  "py_int v =
     (case v of PNum (PyInt i) \<Rightarrow> Inr i
      | PNum (PyFloat (Finite q)) \<Rightarrow> Inr (truncate q)
      | PNum (PyFloat NaN) \<Rightarrow> Inl ValueError
      | PNum (PyFloat PosInf) \<Rightarrow> Inl OverflowError
      | PNum (PyFloat NegInf) \<Rightarrow> Inl OverflowError
      | PStr s \<Rightarrow> int_of_str s
      | PList l \<Rightarrow> Inl TypeError)"

definition is_exp_mark :: "char \<Rightarrow> bool" where
  "is_exp_mark c = (c = CHR ''e'' \<or> c = CHR ''E'')"

definition mantissa_ok :: "string \<Rightarrow> bool" where
  \<comment> \<open>\<open>digitpart ["." [digitpart]]\<close> or \<open>"." digitpart\<close>\<close>
  "mantissa_ok m =
     (let ip = takeWhile (\<lambda>c. c \<noteq> CHR ''.'') m; rest = dropWhile (\<lambda>c. c \<noteq> CHR ''.'') m
      in if rest = [] then digitpart ip
         else (ip = [] \<or> digitpart ip) \<and> (tl rest = [] \<or> digitpart (tl rest))
              \<and> \<not> (ip = [] \<and> tl rest = []))"

definition mantissa_val :: "string \<Rightarrow> rat" where
  "mantissa_val m =
     (let ip = filter is_digit (takeWhile (\<lambda>c. c \<noteq> CHR ''.'') m);
          fp = filter is_digit (dropWhile (\<lambda>c. c \<noteq> CHR ''.'') m)
      in of_int (int_of_digits ip) + of_int (int_of_digits fp) / 10 ^ length fp)"

definition exponent_ok :: "string \<Rightarrow> bool" where
  \<comment> \<open>nothing, or \<open>("e" | "E") ["+" | "-"] digitpart\<close>\<close>
  "exponent_ok x = (x = [] \<or> digitpart (snd (split_sign (tl x))))"

definition exponent_val :: "string \<Rightarrow> int" where
  "exponent_val x =
     (if x = [] then 0
      else (let (sg, ds) = split_sign (tl x) in sg * int_of_digits (filter is_digit ds)))"

definition overflowing :: "rat \<Rightarrow> pyfloat" where
  "overflowing q =
     (if of_int float_max_bound \<le> q then PosInf
      else if q \<le> - of_int float_max_bound then NegInf
      else Finite q)"

definition float_of_str :: "string \<Rightarrow> error + pyfloat" where
  \<comment> \<open>\<open>float(s)\<close> for a string\<close>
  "float_of_str s =
     (let (sg, body) = split_sign (strip s);
          word = py_lower body;
          m = takeWhile (\<lambda>c. \<not> is_exp_mark c) body;
          x = dropWhile (\<lambda>c. \<not> is_exp_mark c) body
      in if word = ''nan'' then Inr NaN
         else if word = ''inf'' \<or> word = ''infinity'' then Inr (if sg < 0 then NegInf else PosInf)
         else if mantissa_ok m \<and> exponent_ok x
           then Inr (overflowing (of_int sg * mantissa_val m * 10 powi exponent_val x))
         else Inl ValueError)"

definition py_float :: "pyval \<Rightarrow> error + pyfloat" where
  \<comment> \<open>\<open>float(v)\<close>\<close>
  "py_float v =
     (case v of
        PNum (PyInt i) \<Rightarrow>
          (if \<bar>i\<bar> < float_max_bound then Inr (Finite (of_int i)) else Inl OverflowError)
      | PNum (PyFloat f) \<Rightarrow> Inr f
      | PStr s \<Rightarrow> float_of_str s
      | PList l \<Rightarrow> Inl TypeError)"

subsection \<open>Comparisons of a catalog number with a criteria number\<close>

definition ge_float :: "rat \<Rightarrow> pyfloat \<Rightarrow> bool" where
  \<comment> \<open>\<open>x >= f\<close>\<close>
  "ge_float x f = (case f of Finite q \<Rightarrow> q \<le> x | PosInf \<Rightarrow> False | NegInf \<Rightarrow> True | NaN \<Rightarrow> False)"

definition le_float :: "rat \<Rightarrow> pyfloat \<Rightarrow> bool" where
  \<comment> \<open>\<open>x <= f\<close>\<close>
  "le_float x f = (case f of Finite q \<Rightarrow> x \<le> q | PosInf \<Rightarrow> True | NegInf \<Rightarrow> False | NaN \<Rightarrow> False)"

definition ge_num :: "int \<Rightarrow> pynum \<Rightarrow> bool" where
  "ge_num x n = (case n of PyInt i \<Rightarrow> i \<le> x | PyFloat f \<Rightarrow> ge_float (of_int x) f)"

definition le_num :: "int \<Rightarrow> pynum \<Rightarrow> bool" where
  "le_num x n = (case n of PyInt i \<Rightarrow> x \<le> i | PyFloat f \<Rightarrow> le_float (of_int x) f)"

definition gt_num :: "pynum \<Rightarrow> int \<Rightarrow> bool" where
  \<comment> \<open>\<open>n > x\<close>\<close>
  "gt_num n x =
     (case n of PyInt i \<Rightarrow> x < i
      | PyFloat f \<Rightarrow>
          (case f of Finite q \<Rightarrow> of_int x < q | PosInf \<Rightarrow> True | NegInf \<Rightarrow> False | NaN \<Rightarrow> False))"

definition lt_num :: "pynum \<Rightarrow> int \<Rightarrow> bool" where
  \<comment> \<open>\<open>n < x\<close>\<close>
  "lt_num n x =
     (case n of PyInt i \<Rightarrow> i < x
      | PyFloat f \<Rightarrow>
          (case f of Finite q \<Rightarrow> q < of_int x | PosInf \<Rightarrow> False | NegInf \<Rightarrow> True | NaN \<Rightarrow> False))"

definition max18 :: "pynum \<Rightarrow> pynum" where
  \<comment> \<open>\<open>max(18, x)\<close>: \<open>x\<close> when \<open>x > 18\<close>, else the int 18\<close>
  "max18 x = (if gt_num x 18 then x else PyInt 18)"

definition min65 :: "pynum \<Rightarrow> pynum" where
  \<comment> \<open>\<open>min(65, x)\<close>: \<open>x\<close> when \<open>x < 65\<close>, else the int 65\<close>
  "min65 x = (if lt_num x 65 then x else PyInt 65)"

section \<open>The catalog and the search (influencer\_utils.py)\<close>

text \<open>
  A row of the data frame that \<open>load_data\<close> builds. The numeric columns hold finite
  numbers; the frame is the list of its rows in file order, and the empty frame that
  \<open>load_data\<close> returns when loading fails is the empty list.
\<close>

record influencer =
  influencer_name :: string
  category :: string
  content_type :: string
  platform :: string
  total_followers :: int
  overall_engagement :: rat
  rates_for_charging_inr :: rat
  age :: int
  gender :: string
  email :: string
  phone_number :: string

type_synonym frame = "influencer list"

text \<open>The state of the filter sequence: \<open>results\<close> and \<open>applied_filters\<close>.\<close>

type_synonym state = "frame \<times> string list"

definition eq_mask :: "(influencer \<Rightarrow> string) \<Rightarrow> pyval \<Rightarrow> frame \<Rightarrow> error + frame" where
  \<comment> \<open>\<open>results[results[col] == v]\<close> on a column of strings: a number equals no string, and a
      list is compared element by element after pandas has checked its length\<close>
  "eq_mask col v results =
     (case v of PStr s \<Rightarrow> Inr (filter (\<lambda>r. col r = s) results)
      | PNum n \<Rightarrow> Inr (filter (\<lambda>r. False) results)
      | PList l \<Rightarrow> if length l = length results then Inr (filter (\<lambda>r. False) results)
                   else Inl ValueError)"

definition filter_text :: "(rat \<Rightarrow> string) \<Rightarrow> string \<Rightarrow> (influencer \<Rightarrow> string) \<Rightarrow> criteria
    \<Rightarrow> state \<Rightarrow> error + state" where
  \<comment> \<open>the \<open>category\<close> and \<open>gender\<close> filters\<close>
  "filter_text repr_float key col criteria st =
     (case criteria key of None \<Rightarrow> Inr st
      | Some v \<Rightarrow>
          (case eq_mask col v (fst st) of Inl e \<Rightarrow> Inl e
           | Inr results \<Rightarrow> Inr (results, snd st @ [key @ '': '' @ py_str repr_float v])))"

definition filter_platform :: "criteria \<Rightarrow> state \<Rightarrow> error + state" where
  "filter_platform criteria st =
     (case criteria ''platform'' of None \<Rightarrow> Inr st
      | Some (PStr s) \<Rightarrow>
          (let platform_code = (case map_of platform_map (py_lower s) of Some c \<Rightarrow> c | None \<Rightarrow> s)
           in Inr (filter (\<lambda>r. platform r = platform_code) (fst st),
                   snd st @ [''platform: '' @ platform_code]))
      | Some (PNum n) \<Rightarrow> Inl AttributeError
      | Some (PList l) \<Rightarrow> Inl AttributeError)"

definition filter_age :: "(rat \<Rightarrow> string) \<Rightarrow> criteria \<Rightarrow> state \<Rightarrow> error + state" where
  \<comment> \<open>\<open>len\<close> of a number and \<open>max(18, c)\<close> for a character \<open>c\<close> raise TypeError\<close>
  "filter_age repr_float criteria st =
     (case criteria ''age_range'' of None \<Rightarrow> Inr st
      | Some (PNum n) \<Rightarrow> Inl TypeError
      | Some (PStr s) \<Rightarrow> if length s = 2 then Inl TypeError else Inr st
      | Some (PList l) \<Rightarrow>
          (case l of
             [lo, hi] \<Rightarrow>
               (let min_age = max18 lo; max_age = min65 hi
                in Inr (filter (\<lambda>r. ge_num (age r) min_age \<and> le_num (age r) max_age) (fst st),
                        snd st @ [''age: '' @ str_num repr_float min_age @ ''-''
                                  @ str_num repr_float max_age]))
           | _ \<Rightarrow> Inr st))"

definition filter_followers :: "(rat \<Rightarrow> string) \<Rightarrow> string \<Rightarrow> string \<Rightarrow> (int \<Rightarrow> int \<Rightarrow> bool)
    \<Rightarrow> criteria \<Rightarrow> state \<Rightarrow> error + state" where
  \<comment> \<open>the \<open>min_followers\<close> and \<open>max_followers\<close> filters; \<open>cmp\<close> is \<open>>=\<close> or \<open><=\<close>\<close>
  "filter_followers repr_float key label cmp criteria st =
     (case criteria key of None \<Rightarrow> Inr st
      | Some v \<Rightarrow>
          (case py_int v of Inl e \<Rightarrow> Inl e
           | Inr n \<Rightarrow>
               (case format_comma repr_float v of Inl e \<Rightarrow> Inl e
                | Inr shown \<Rightarrow> Inr (filter (\<lambda>r. cmp (total_followers r) n) (fst st),
                                  snd st @ [label @ shown]))))"

definition filter_engagement :: "(rat \<Rightarrow> string) \<Rightarrow> criteria \<Rightarrow> state \<Rightarrow> error + state" where
  "filter_engagement repr_float criteria st =
     (case criteria ''min_engagement'' of None \<Rightarrow> Inr st
      | Some v \<Rightarrow>
          (case py_float v of Inl e \<Rightarrow> Inl e
           | Inr f \<Rightarrow> Inr (filter (\<lambda>r. ge_float (overall_engagement r) f) (fst st),
                           snd st @ [''min engagement: '' @ py_str repr_float v @ ''%''])))"

definition currency_mark :: string where
  \<comment> \<open>the bytes of the literal between \<open>max budget: \<close> and the amount in the source file\<close>
  "currency_mark = [CHR 0xC3, CHR 0xA2, CHR 0xE2, CHR 0x80, CHR 0x9A, CHR 0xC2, CHR 0xB9]"

definition filter_budget :: "criteria \<Rightarrow> state \<Rightarrow> error + state" where
  "filter_budget criteria st =
     (case criteria ''max_budget'' of None \<Rightarrow> Inr st
      | Some v \<Rightarrow>
          (case py_float v of Inl e \<Rightarrow> Inl e
           | Inr f \<Rightarrow>
               (case format_comma_2f v of Inl e \<Rightarrow> Inl e
                | Inr shown \<Rightarrow> Inr (filter (\<lambda>r. le_float (rates_for_charging_inr r) f) (fst st),
                                  snd st @ [''max budget: '' @ currency_mark @ shown]))))"

fun run_steps :: "(state \<Rightarrow> error + state) list \<Rightarrow> state \<Rightarrow> error + state" where
  \<comment> \<open>statements in sequence: the first exception ends the sequence\<close>
  "run_steps [] st = Inr st"
| "run_steps (f # fs) st = (case f st of Inl e \<Rightarrow> Inl e | Inr st' \<Rightarrow> run_steps fs st')"

definition sort_values :: "frame \<Rightarrow> frame" where
  \<comment> \<open>\<open>results.sort_values(by=['overall_engagement', 'total_followers'], ascending=False)\<close>:
      pandas sorts on several columns with a stable lexicographic sort\<close>
  "sort_values results =
     sort_key (\<lambda>r. (- overall_engagement r, - total_followers r)) results"

definition search_steps :: "(rat \<Rightarrow> string) \<Rightarrow> criteria \<Rightarrow> (state \<Rightarrow> error + state) list" where
  "search_steps repr_float criteria =
     [filter_text repr_float ''category'' category criteria,
      filter_platform criteria,
      filter_text repr_float ''gender'' gender criteria,
      filter_age repr_float criteria,
      filter_followers repr_float ''min_followers'' ''min followers: '' (\<lambda>x n. n \<le> x) criteria,
      filter_followers repr_float ''max_followers'' ''max followers: '' (\<lambda>x n. x \<le> n) criteria,
      filter_engagement repr_float criteria,
      filter_budget criteria]"

definition search :: "(rat \<Rightarrow> string) \<Rightarrow> frame \<Rightarrow> criteria \<Rightarrow> error + frame \<times> string" where
  "search repr_float df criteria =
     (if df = [] then Inr ([], ''Data not loaded'')
      else (case run_steps (search_steps repr_float criteria) (df, []) of
              Inl e \<Rightarrow> Inl e
            | Inr (results, applied_filters) \<Rightarrow>
                Inr (sort_values results,
                     if applied_filters \<noteq> [] then join '', '' applied_filters else ''no filters'')))"

section \<open>The request handler (main.py)\<close>

datatype listing = Listing string string string string int rat rat int string "string \<times> string"




record response =
  prompt :: string
  interpreted_criteria :: criteria
  filters_applied :: string
  total_matches :: nat
  results_returned :: nat
  influencers :: "listing list"


section \<open>An example catalog\<close>

text \<open>Five rows on which the theorems below are also run.\<close>

definition row :: "string \<Rightarrow> string \<Rightarrow> string \<Rightarrow> string \<Rightarrow> int \<Rightarrow> rat \<Rightarrow> rat \<Rightarrow> int
    \<Rightarrow> influencer" where
  "row n c p g followers engagement rate a =
     \<lparr>influencer_name = n, category = c, content_type = ''video'', platform = p,
      total_followers = followers, overall_engagement = engagement,
      rates_for_charging_inr = rate, age = a, gender = g,
      email = n @ ''@example.com'', phone_number = ''0000000000''\<rparr>"

definition asha :: influencer where
  "asha = row ''asha'' ''fitness'' ''ig'' ''female'' 120000 (9 / 2) 6500 24"

definition bala :: influencer where
  "bala = row ''bala'' ''tech'' ''yt'' ''male'' 300000 (11 / 2) 9000 31"

definition chloe :: influencer where
  "chloe = row ''chloe'' ''fitness'' ''ig'' ''female'' 120000 (9 / 2) 7000 17"

definition dev :: influencer where
  "dev = row ''dev'' ''travel'' ''tiktok'' ''male'' 80000 (9 / 2) 7001 70"

definition esha :: influencer where
  "esha = row ''esha'' ''fitness'' ''ig'' ''female'' 120000 (9 / 2) 12000 65"

definition example_df :: frame where
  "example_df = [asha, bala, chloe, dev, esha]"

definition no_repr :: "rat \<Rightarrow> string" where
  \<comment> \<open>a rendering of floats for examples in which no float is rendered\<close>
  "no_repr q = ''?''"

section \<open>Properties of substrings\<close>

lemma startswith_iff: "startswith p s \<longleftrightarrow> (\<exists>b. s = p @ b)"
  unfolding startswith_def
  by (metis append_eq_conv_conj append_take_drop_id)

lemma py_in_iff: "py_in p s \<longleftrightarrow> (\<exists>a b. s = a @ p @ b)"
proof (induction s)
  case Nil
  then show ?case by auto
next
  case (Cons c cs)
  show ?case
  proof
    assume "py_in p (c # cs)"
    then consider "startswith p (c # cs)" | "py_in p cs" by auto
    then show "\<exists>a b. c # cs = a @ p @ b"
    proof cases
      case 1
      then obtain b where "c # cs = p @ b" by (auto simp: startswith_iff)
      then have "c # cs = [] @ p @ b" by simp
      then show ?thesis by blast
    next
      case 2
      then obtain a b where "cs = a @ p @ b" using Cons.IH by auto
      then have "c # cs = (c # a) @ p @ b" by simp
      then show ?thesis by blast
    qed
  next
    assume "\<exists>a b. c # cs = a @ p @ b"
    then obtain a b where ab: "c # cs = a @ p @ b" by auto
    show "py_in p (c # cs)"
    proof (cases a)
      case Nil
      then have "startswith p (c # cs)" using ab by (auto simp: startswith_iff)
      then show ?thesis by simp
    next
      case (Cons x a')
      then have "cs = a' @ p @ b" using ab by simp
      then show ?thesis using Cons.IH by auto
    qed
  qed
qed

section \<open>Properties of the merge\<close>

text \<open>
  C1. In the merged criteria every key of the manual mapping has the manual value, also
  when the AI mapping has the key too; every other key has what the AI mapping has for it;
  the keys of the merge are the keys of the two mappings; and with an empty AI mapping the
  merge is the manual mapping.
\<close>

theorem merge_manual_wins:
  "(k \<in> dom manual \<longrightarrow> merge_criteria ai manual k = manual k) \<and>
   (k \<notin> dom manual \<longrightarrow> merge_criteria ai manual k = ai k) \<and>
   dom (merge_criteria ai manual) = dom ai \<union> dom manual \<and>
   merge_criteria Map.empty manual = manual"
  by (auto simp: merge_criteria_def map_add_def dom_def split: option.splits)

theorem merge_manual_wins_witness:
  "merge_criteria [''gender'' \<mapsto> PStr ''male'', ''max_budget'' \<mapsto> PNum (PyInt 7000)]
                  [''gender'' \<mapsto> PStr ''female'', ''platform'' \<mapsto> PStr ''ig''] ''gender''
     = Some (PStr ''female'') \<and>
   merge_criteria [''gender'' \<mapsto> PStr ''male'', ''max_budget'' \<mapsto> PNum (PyInt 7000)]
                  [''gender'' \<mapsto> PStr ''female'', ''platform'' \<mapsto> PStr ''ig''] ''max_budget''
     = Some (PNum (PyInt 7000))"
  using merge_manual_wins [of "''gender''" "[''gender'' \<mapsto> PStr ''female'', ''platform'' \<mapsto> PStr ''ig'']"
                              "[''gender'' \<mapsto> PStr ''male'', ''max_budget'' \<mapsto> PNum (PyInt 7000)]"]
        merge_manual_wins [of "''max_budget''" "[''gender'' \<mapsto> PStr ''female'', ''platform'' \<mapsto> PStr ''ig'']"
                              "[''gender'' \<mapsto> PStr ''male'', ''max_budget'' \<mapsto> PNum (PyInt 7000)]"]
  by simp

section \<open>The empty catalog and the age bounds\<close>

text \<open>
  C6. On the empty data frame, which is also what a failed load leaves, the search returns
  no rows and the report \<open>Data not loaded\<close>, whatever the criteria are; it returns a value,
  so nothing is raised.
\<close>

theorem search_empty_catalog:
  "search repr_float [] criteria = Inr ([], ''Data not loaded'')"
  by (simp add: search_def)

theorem search_empty_catalog_witness:
  "search (\<lambda>q. []) [] [''min_followers'' \<mapsto> PStr ''many''] = Inr ([], ''Data not loaded'')"
  by (rule search_empty_catalog)

text \<open>
  C4, as amended. For a requested pair of integers \<open>[a, b]\<close> the bounds the search filters
  and reports with are the integers \<open>max 18 a\<close> and \<open>min 65 b\<close>; when \<open>a \<le> b\<close> they are
  in order exactly when the request meets the range from 18 to 65, that is \<open>a \<le> 65\<close> and
  \<open>18 \<le> b\<close>. A request that lies wholly above 65 or wholly below 18 leaves them inverted.
\<close>

theorem clamp_bounds_ordered:
  "max18 (PyInt a) = PyInt (max 18 a) \<and> min65 (PyInt b) = PyInt (min 65 b) \<and>
   (a \<le> b \<longrightarrow> (max 18 a \<le> min 65 b \<longleftrightarrow> a \<le> 65 \<and> 18 \<le> b))"
  by (auto simp: max18_def min65_def gt_num_def lt_num_def)

theorem clamp_bounds_ordered_witness:
  "max18 (PyInt 10) = PyInt 18 \<and> min65 (PyInt 70) = PyInt 65 \<and> (18::int) \<le> 65"
  using clamp_bounds_ordered [of 10 70] by simp

text \<open>
  The request \<open>[70, 80]\<close> is in order, and the age filter works and reports with the
  bounds 70 and 65.
\<close>

theorem clamp_inverted_counterexample:
  "(70::int) \<le> 80 \<and>
   filter_age (\<lambda>q. []) [''age_range'' \<mapsto> PList [PyInt 70, PyInt 80]] ([], [])
     = Inr ([], [''age: 70-65'']) \<and> \<not> (70::int) \<le> 65"
  by code_simp

section \<open>Properties of the rule-based parser\<close>

lemma put_other: "k \<noteq> k' \<Longrightarrow> put k' v c k = c k"
  by (simp add: put_def split: option.splits)

lemma put_same: "put k v c k = (case v of None \<Rightarrow> c k | Some x \<Rightarrow> Some x)"
  by (simp add: put_def split: option.splits)

lemma manual_gender:
  "manual_criteria_parsing text ''gender'' = map_option PStr (detect_gender gender_keywords (py_lower text))"
  by (simp add: manual_criteria_parsing_def Let_def put_other put_same split: option.splits)


lemma py_lower_append: "py_lower (a @ b) = py_lower a @ py_lower b"
  by (simp add: py_lower_def)

text \<open>
  C10. The gender triggers are looked for as substrings of the lower-cased text, with no
  word boundary. So a text that contains \<open>the\<close>, and in which no female trigger occurs
  in any letter case, gets the gender \<open>male\<close> from the trigger \<open>he\<close> inside \<open>the\<close>:
  \<open>the best tech bloggers\<close> names no gender and is parsed as male.
\<close>

theorem gender_by_substring:
  assumes "py_in ''the'' text"
    and "\<not> list_ex (\<lambda>kw. py_in kw (py_lower text))
            [''female'', ''woman'', ''women'', ''girl'', ''she'', ''her'']"
  shows "manual_criteria_parsing text ''gender'' = Some (PStr ''male'')"
proof -
  obtain a b where "text = a @ ''the'' @ b"
    using assms(1) by (auto simp: py_in_iff)
  then have "py_lower text = py_lower a @ py_lower ''the'' @ py_lower b"
    by (simp only: py_lower_append)
  moreover have "py_lower ''the'' = ''the''"
    by (simp add: py_lower_def lower_char_def)
  ultimately have "py_lower text = (py_lower a @ ''t'') @ ''he'' @ py_lower b" by simp
  then have he: "py_in ''he'' (py_lower text)"
    unfolding py_in_iff by blast
  have "detect_gender gender_keywords (py_lower text) = Some ''male''"
    using assms(2) he by (simp add: gender_keywords_def)
  then show ?thesis by (simp add: manual_gender)
qed

theorem gender_by_substring_witness:
  "py_in ''the'' ''the best tech bloggers'' \<and>
   \<not> list_ex (\<lambda>kw. py_in kw (py_lower ''the best tech bloggers''))
            [''female'', ''woman'', ''women'', ''girl'', ''she'', ''her''] \<and>
   manual_criteria_parsing ''the best tech bloggers'' ''gender'' = Some (PStr ''male'')"
proof -
  have h1: "py_in ''the'' ''the best tech bloggers''" by code_simp
  have h2: "\<not> list_ex (\<lambda>kw. py_in kw (py_lower ''the best tech bloggers''))
            [''female'', ''woman'', ''women'', ''girl'', ''she'', ''her'']" by code_simp
  from gender_by_substring [OF h1 h2] h1 h2 show ?thesis by blast
qed

text \<open>
  C9. For the text \<open>Female fitness influencers on Instagram under 30\<close> the parser binds
  gender to female, category to fitness, platform to ig and the age range to 18..30, and
  the merge with any AI mapping keeps the four bindings.
\<close>

theorem fitness_query_criteria:
  "manual_criteria_parsing ''Female fitness influencers on Instagram under 30'' ''gender''
     = Some (PStr ''female'') \<and>
   manual_criteria_parsing ''Female fitness influencers on Instagram under 30'' ''category''
     = Some (PStr ''fitness'') \<and>
   manual_criteria_parsing ''Female fitness influencers on Instagram under 30'' ''platform''
     = Some (PStr ''ig'') \<and>
   manual_criteria_parsing ''Female fitness influencers on Instagram under 30'' ''age_range''
     = Some (PList [PyInt 18, PyInt 30]) \<and>
   merge_criteria ai (manual_criteria_parsing ''Female fitness influencers on Instagram under 30'')
     ''gender'' = Some (PStr ''female'') \<and>
   merge_criteria ai (manual_criteria_parsing ''Female fitness influencers on Instagram under 30'')
     ''category'' = Some (PStr ''fitness'') \<and>
   merge_criteria ai (manual_criteria_parsing ''Female fitness influencers on Instagram under 30'')
     ''platform'' = Some (PStr ''ig'') \<and>
   merge_criteria ai (manual_criteria_parsing ''Female fitness influencers on Instagram under 30'')
     ''age_range'' = Some (PList [PyInt 18, PyInt 30])"
proof -
  have g: "manual_criteria_parsing ''Female fitness influencers on Instagram under 30'' ''gender''
     = Some (PStr ''female'')" by code_simp
  have c: "manual_criteria_parsing ''Female fitness influencers on Instagram under 30'' ''category''
     = Some (PStr ''fitness'')" by code_simp
  have p: "manual_criteria_parsing ''Female fitness influencers on Instagram under 30'' ''platform''
     = Some (PStr ''ig'')" by code_simp
  have a: "manual_criteria_parsing ''Female fitness influencers on Instagram under 30'' ''age_range''
     = Some (PList [PyInt 18, PyInt 30])" by code_simp
  show ?thesis
    unfolding merge_criteria_def map_add_def g c p a by simp
qed

theorem fitness_query_criteria_witness:
  "merge_criteria [''gender'' \<mapsto> PStr ''male'', ''age_range'' \<mapsto> PList [PyInt 13, PyInt 19]]
     (manual_criteria_parsing ''Female fitness influencers on Instagram under 30'') ''gender''
     = Some (PStr ''female'') \<and>
   merge_criteria [''gender'' \<mapsto> PStr ''male'', ''age_range'' \<mapsto> PList [PyInt 13, PyInt 19]]
     (manual_criteria_parsing ''Female fitness influencers on Instagram under 30'') ''age_range''
     = Some (PList [PyInt 18, PyInt 30])"
  using fitness_query_criteria
    [of "[''gender'' \<mapsto> PStr ''male'', ''age_range'' \<mapsto> PList [PyInt 13, PyInt 19]]"]
  by blast







section \<open>The shape of a search result\<close>

lemma filter_text_shape:
  assumes "filter_text R key col c st = Inr st'"
  shows "\<exists>P ys. st' = (filter P (fst st), snd st @ ys)"
proof (cases "c key")
  case None
  then have "st' = (filter (\<lambda>r. True) (fst st), snd st @ [])"
    using assms by (simp add: filter_text_def)
  then show ?thesis by blast
next
  case (Some v)
  have e: "\<exists>P. ([]::frame) = filter P (fst st)"
    by (rule exI [of _ "\<lambda>r. False"]) simp
  then obtain P where "st' = (filter P (fst st), snd st @ [key @ '': '' @ py_str R v])"
    using assms Some
    by (auto simp: filter_text_def eq_mask_def split: pyval.splits if_splits)
  then show ?thesis by blast
qed

lemma filter_platform_shape:
  assumes "filter_platform c st = Inr st'"
  shows "\<exists>P ys. st' = (filter P (fst st), snd st @ ys)"
proof (cases "c ''platform''")
  case None
  then have "st' = (filter (\<lambda>r. True) (fst st), snd st @ [])"
    using assms by (simp add: filter_platform_def)
  then show ?thesis by blast
next
  case (Some v)
  then show ?thesis
    using assms by (auto simp: filter_platform_def Let_def split: pyval.splits)
qed

lemma filter_age_shape:
  assumes "filter_age R c st = Inr st'"
  shows "\<exists>P ys. st' = (filter P (fst st), snd st @ ys)"
proof -
  have id: "\<exists>P ys. st = (filter P (fst st), snd st @ ys)"
    by (rule exI [of _ "\<lambda>r. True"], rule exI [of _ "[]"]) simp
  show ?thesis
    using assms id
    by (auto simp: filter_age_def Let_def split: option.splits pyval.splits list.splits if_splits)
qed

lemma filter_followers_shape:
  assumes "filter_followers R key label cmp c st = Inr st'"
  shows "\<exists>P ys. st' = (filter P (fst st), snd st @ ys)"
proof -
  have id: "\<exists>P ys. st = (filter P (fst st), snd st @ ys)"
    by (rule exI [of _ "\<lambda>r. True"], rule exI [of _ "[]"]) simp
  show ?thesis
    using assms id
    by (auto simp: filter_followers_def split: option.splits sum.splits)
qed

lemma filter_engagement_shape:
  assumes "filter_engagement R c st = Inr st'"
  shows "\<exists>P ys. st' = (filter P (fst st), snd st @ ys)"
proof -
  have id: "\<exists>P ys. st = (filter P (fst st), snd st @ ys)"
    by (rule exI [of _ "\<lambda>r. True"], rule exI [of _ "[]"]) simp
  show ?thesis
    using assms id
    by (auto simp: filter_engagement_def split: option.splits sum.splits)
qed

lemma filter_budget_shape:
  assumes "filter_budget c st = Inr st'"
  shows "\<exists>P ys. st' = (filter P (fst st), snd st @ ys)"
proof -
  have id: "\<exists>P ys. st = (filter P (fst st), snd st @ ys)"
    by (rule exI [of _ "\<lambda>r. True"], rule exI [of _ "[]"]) simp
  show ?thesis
    using assms id
    by (auto simp: filter_budget_def split: option.splits sum.splits)
qed

lemma search_steps_shape:
  assumes "f \<in> set (search_steps R c)" and "f st = Inr st'"
  shows "\<exists>P ys. st' = (filter P (fst st), snd st @ ys)"
  using assms
  by (auto simp: search_steps_def
           dest: filter_text_shape filter_platform_shape filter_age_shape
                 filter_followers_shape filter_engagement_shape filter_budget_shape)

lemma run_steps_shape:
  assumes "set fs \<subseteq> set (search_steps R c)" and "run_steps fs st = Inr st'"
  shows "\<exists>P ys. st' = (filter P (fst st), snd st @ ys)"
  using assms
proof (induction fs arbitrary: st)
  case Nil
  then have "st' = (filter (\<lambda>r. True) (fst st), snd st @ [])" by simp
  then show ?case by blast
next
  case (Cons f fs)
  from Cons.prems(2) obtain st1 where f: "f st = Inr st1" and rest: "run_steps fs st1 = Inr st'"
    by (auto split: sum.splits)
  have "f \<in> set (search_steps R c)" using Cons.prems(1) by simp
  then obtain P1 ys1 where 1: "st1 = (filter P1 (fst st), snd st @ ys1)"
    using search_steps_shape f by blast
  have "set fs \<subseteq> set (search_steps R c)" using Cons.prems(1) by simp
  then obtain P2 ys2 where 2: "st' = (filter P2 (fst st1), snd st1 @ ys2)"
    using Cons.IH rest by blast
  have "st' = (filter (\<lambda>r. P1 r \<and> P2 r) (fst st), snd st @ (ys1 @ ys2))"
    using 1 2 by (simp add: conj_commute)
  then show ?case by blast
qed

lemma search_shape:
  assumes "search R df c = Inr (rs, report)"
  shows "\<exists>P. rs = sort_values (filter P df)"
proof (cases "df = []")
  case True
  then have "rs = sort_values (filter (\<lambda>r. True) df)"
    using assms by (simp add: search_def sort_values_def)
  then show ?thesis by blast
next
  case False
  then obtain res app where run: "run_steps (search_steps R c) (df, []) = Inr (res, app)"
    and rs: "rs = sort_values res"
    using assms by (auto simp: search_def split: sum.splits)
  from run_steps_shape [OF subset_refl run] obtain P where "res = filter P df"
    by auto
  then show ?thesis using rs by auto
qed

lemma sort_values_sorted:
  "sorted_wrt (\<lambda>x y. overall_engagement y < overall_engagement x \<or>
                      overall_engagement x = overall_engagement y \<and>
                      total_followers y \<le> total_followers x) (sort_values xs)"
proof -
  have "sorted (map (\<lambda>r. (- overall_engagement r, - total_followers r)) (sort_values xs))"
    unfolding sort_values_def by (rule sorted_sort_key)
  then have "sorted_wrt (\<lambda>x y. (- overall_engagement x, - total_followers x)
                              \<le> (- overall_engagement y, - total_followers y)) (sort_values xs)"
    by (simp add: sorted_map)
  then show ?thesis
    by (rule sorted_wrt_mono_rel [rotated]) auto
qed

lemma sort_values_stable:
  "[r \<leftarrow> sort_values xs. overall_engagement r = e \<and> total_followers r = f]
     = [r \<leftarrow> xs. overall_engagement r = e \<and> total_followers r = f]"
proof -
  have "[r \<leftarrow> sort_key (\<lambda>r. (- overall_engagement r, - total_followers r)) xs.
           (- overall_engagement r, - total_followers r) = (- e, - f)]
          = [r \<leftarrow> xs. (- overall_engagement r, - total_followers r) = (- e, - f)]"
    by (rule sort_key_stable)
  then show ?thesis
    unfolding sort_values_def by simp
qed

text \<open>
  C2. Whatever the catalog and the criteria, the rows a search returns are in descending
  order of engagement, rows of equal engagement in descending order of followers, and the
  rows that agree on both are the catalog's rows with these two values that were returned,
  in catalog order.
\<close>

theorem search_sorted_stable:
  assumes "search R df criteria = Inr (rs, report)"
  shows "sorted_wrt (\<lambda>x y. overall_engagement y < overall_engagement x \<or>
                            overall_engagement x = overall_engagement y \<and>
                            total_followers y \<le> total_followers x) rs \<and>
         (\<forall>e f. [r \<leftarrow> rs. overall_engagement r = e \<and> total_followers r = f]
                  = [r \<leftarrow> df. overall_engagement r = e \<and> total_followers r = f \<and> r \<in> set rs])"
proof -
  obtain P where rs: "rs = sort_values (filter P df)"
    using search_shape [OF assms] by blast
  have mem: "\<And>r. r \<in> set df \<Longrightarrow> r \<in> set rs \<longleftrightarrow> P r"
    by (simp add: rs sort_values_def)
  have "[r \<leftarrow> rs. overall_engagement r = e \<and> total_followers r = f]
          = [r \<leftarrow> df. overall_engagement r = e \<and> total_followers r = f \<and> r \<in> set rs]" for e f
  proof -
    have "[r \<leftarrow> rs. overall_engagement r = e \<and> total_followers r = f]
            = [r \<leftarrow> filter P df. overall_engagement r = e \<and> total_followers r = f]"
      unfolding rs by (rule sort_values_stable)
    also have "\<dots> = [r \<leftarrow> df. overall_engagement r = e \<and> total_followers r = f \<and> r \<in> set rs]"
      using mem by (auto intro: filter_cong)
    finally show ?thesis .
  qed
  then show ?thesis using sort_values_sorted rs by blast
qed

theorem search_sorted_stable_witness:
  "search no_repr example_df Map.empty = Inr ([bala, asha, chloe, esha, dev], ''no filters'') \<and>
   sorted_wrt (\<lambda>x y. overall_engagement y < overall_engagement x \<or>
                      overall_engagement x = overall_engagement y \<and>
                      total_followers y \<le> total_followers x) [bala, asha, chloe, esha, dev] \<and>
   [r \<leftarrow> [bala, asha, chloe, esha, dev]. overall_engagement r = 9 / 2 \<and> total_followers r = 120000]
     = [r \<leftarrow> example_df. overall_engagement r = 9 / 2 \<and> total_followers r = 120000 \<and>
                          r \<in> set [bala, asha, chloe, esha, dev]]"
proof -
  have h: "search no_repr example_df Map.empty = Inr ([bala, asha, chloe, esha, dev], ''no filters'')"
    by code_simp
  from search_sorted_stable [OF h] h show ?thesis by blast
qed

section \<open>The age filter inside a search\<close>

lemma join_contains: "x \<in> set xs \<Longrightarrow> py_in x (join sep xs)"
proof (induction sep xs rule: join.induct)
  case (1 sep)
  then show ?case by simp
next
  case (2 sep y)
  then have "join sep [y] = [] @ x @ []" by simp
  then show ?case unfolding py_in_iff by blast
next
  case (3 sep y z zs)
  show ?case
  proof (cases "x = y")
    case True
    then have "join sep (y # z # zs) = [] @ x @ (sep @ join sep (z # zs))" by simp
    then show ?thesis unfolding py_in_iff by blast
  next
    case False
    then have "x \<in> set (z # zs)" using 3 by auto
    then obtain a b where "join sep (z # zs) = a @ x @ b"
      using 3 by (auto simp: py_in_iff)
    then have "join sep (y # z # zs) = (y @ sep @ a) @ x @ b" by simp
    then show ?thesis unfolding py_in_iff by blast
  qed
qed

lemma filter_age_pair:
  assumes "c ''age_range'' = Some (PList [PyInt a, PyInt b])"
  shows "filter_age R c st =
           Inr (filter (\<lambda>r. max 18 a \<le> age r \<and> age r \<le> min 65 b) (fst st),
                snd st @ [''age: '' @ str_int (max 18 a) @ ''-'' @ str_int (min 65 b)])"
proof -
  have 1: "max18 (PyInt a) = PyInt (max 18 a)" and 2: "min65 (PyInt b) = PyInt (min 65 b)"
    by (auto simp: max18_def min65_def gt_num_def lt_num_def)
  show ?thesis
    using assms by (simp add: filter_age_def 1 2 ge_num_def le_num_def str_num_def)
qed

lemma filter_age_absent: "c ''age_range'' = None \<Longrightarrow> filter_age R c st = Inr st"
  by (simp add: filter_age_def)

lemma later_step_commute:
  assumes "f \<in> set (drop 4 (search_steps R c))"
    and "f (filter A rs, fs) = Inr (rs', fs')"
  shows "\<exists>rs0 fs0'. f (rs, fs0) = Inr (rs0, fs0') \<and> rs' = filter A rs0"
proof -
  have swap: "\<And>P. filter P (filter A rs) = filter A (filter P rs)"
    by (simp add: conj_commute)
  from assms(1) consider
      "f = filter_followers R ''min_followers'' ''min followers: '' (\<lambda>x n. n \<le> x) c"
    | "f = filter_followers R ''max_followers'' ''max followers: '' (\<lambda>x n. x \<le> n) c"
    | "f = filter_engagement R c"
    | "f = filter_budget c"
    by (auto simp: search_steps_def)
  then show ?thesis
  proof cases
    case 1
    then show ?thesis using assms(2) swap
      by (auto simp: filter_followers_def split: option.splits sum.splits)
  next
    case 2
    then show ?thesis using assms(2) swap
      by (auto simp: filter_followers_def split: option.splits sum.splits)
  next
    case 3
    then show ?thesis using assms(2) swap
      by (auto simp: filter_engagement_def split: option.splits sum.splits)
  next
    case 4
    then show ?thesis using assms(2) swap
      by (auto simp: filter_budget_def split: option.splits sum.splits)
  qed
qed

lemma later_steps_commute:
  assumes "set steps \<subseteq> set (drop 4 (search_steps R c))"
    and "run_steps steps (filter A rs, fs) = Inr (rs', fs')"
  shows "\<exists>rs0 fs0'. run_steps steps (rs, fs0) = Inr (rs0, fs0') \<and> rs' = filter A rs0"
  using assms
proof (induction steps arbitrary: rs fs fs0)
  case Nil
  then show ?case by auto
next
  case (Cons f steps)
  from Cons.prems(2) obtain rs1 fs1 where f: "f (filter A rs, fs) = Inr (rs1, fs1)"
    and rest: "run_steps steps (rs1, fs1) = Inr (rs', fs')"
    by (auto split: sum.splits)
  have "f \<in> set (drop 4 (search_steps R c))" using Cons.prems(1) by simp
  then obtain rs1' fs1' where f': "f (rs, fs0) = Inr (rs1', fs1')" and eq: "rs1 = filter A rs1'"
    using later_step_commute f by blast
  have "set steps \<subseteq> set (drop 4 (search_steps R c))" using Cons.prems(1) by simp
  then obtain rs0 fs0' where "run_steps steps (rs1', fs1') = Inr (rs0, fs0')" and "rs' = filter A rs0"
    using Cons.IH rest eq by blast
  then show ?case using f' by auto
qed

lemma steps_without_age:
  "search_steps R (c(''age_range'' := None)) =
     take 3 (search_steps R c) @ [filter_age R (c(''age_range'' := None))] @ drop 4 (search_steps R c)"
  by (simp add: search_steps_def filter_text_def filter_platform_def filter_followers_def
        filter_engagement_def filter_budget_def fun_eq_iff)

lemma steps_with_age:
  "search_steps R c = take 3 (search_steps R c) @ [filter_age R c] @ drop 4 (search_steps R c)"
  by (simp add: search_steps_def)

lemma run_steps_append:
  "run_steps (fs @ gs) st = (case run_steps fs st of Inl e \<Rightarrow> Inl e | Inr st' \<Rightarrow> run_steps gs st')"
  by (induction fs arbitrary: st) (auto split: sum.splits)

text \<open>
  C3. On a loaded catalog, let the criteria hold the pair of integers \<open>[a, b]\<close> under
  \<open>age_range\<close> and let the search return. Then the search without the \<open>age_range\<close> key
  returns too, and the rows returned are exactly its rows whose age is at least
  \<open>max 18 a\<close> and at most \<open>min 65 b\<close>; and the report contains the entry \<open>age: \<close> with
  these two clamped bounds. The request \<open>[10, 70]\<close> filters and reports as 18-65.
\<close>

theorem age_range_clamped:
  assumes "criteria ''age_range'' = Some (PList [PyInt a, PyInt b])"
    and "df \<noteq> []"
    and "search R df criteria = Inr (rs, report)"
  shows "(\<exists>rs0 report0. search R df (criteria(''age_range'' := None)) = Inr (rs0, report0) \<and>
            rs = [r \<leftarrow> rs0. max 18 a \<le> age r \<and> age r \<le> min 65 b]) \<and>
         py_in (''age: '' @ str_int (max 18 a) @ ''-'' @ str_int (min 65 b)) report"
proof -
  let ?A = "\<lambda>r. max 18 a \<le> age r \<and> age r \<le> min 65 b"
  let ?entry = "''age: '' @ str_int (max 18 a) @ ''-'' @ str_int (min 65 b)"
  let ?pre = "take 3 (search_steps R criteria)"
  let ?post = "drop 4 (search_steps R criteria)"
  obtain res app where run: "run_steps (search_steps R criteria) (df, []) = Inr (res, app)"
    and rs: "rs = sort_values res"
    and rep: "report = (if app \<noteq> [] then join '', '' app else ''no filters'')"
    using assms(2,3) by (auto simp: search_def split: sum.splits)
  have "run_steps (?pre @ [filter_age R criteria] @ ?post) (df, []) = Inr (res, app)"
    using run steps_with_age [of R criteria] by simp
  then obtain r3 f3 where pre: "run_steps ?pre (df, []) = Inr (r3, f3)"
    and post: "run_steps ?post (filter ?A r3, f3 @ [?entry]) = Inr (res, app)"
    using filter_age_pair [of criteria a b R, OF assms(1)]
    by (auto simp: run_steps_append split: sum.splits)
  obtain res0 app0 where post0: "run_steps ?post (r3, f3) = Inr (res0, app0)"
    and res: "res = filter ?A res0"
    using later_steps_commute [OF subset_refl post] by blast
  have "run_steps (search_steps R (criteria(''age_range'' := None))) (df, []) = Inr (res0, app0)"
    by (simp add: steps_without_age run_steps_append pre post0 filter_age_absent)
  then have "search R df (criteria(''age_range'' := None))
               = Inr (sort_values res0, if app0 \<noteq> [] then join '', '' app0 else ''no filters'')"
    using assms(2) by (simp add: search_def)
  moreover have "rs = filter ?A (sort_values res0)"
    unfolding rs res sort_values_def by (simp add: filter_sort)
  ultimately have part1: "\<exists>rs0 report0. search R df (criteria(''age_range'' := None)) = Inr (rs0, report0) \<and>
            rs = filter ?A rs0" by blast
  have sub: "set ?post \<subseteq> set (search_steps R criteria)" by (rule set_drop_subset)
  have "\<exists>P ys. (res, app) = (filter P (fst (filter ?A r3, f3 @ [?entry])),
                               snd (filter ?A r3, f3 @ [?entry]) @ ys)"
    using sub post by (rule run_steps_shape)
  then obtain ys where "app = (f3 @ [?entry]) @ ys" by auto
  then have mem: "?entry \<in> set app" by simp
  then have "app \<noteq> []" by auto
  then have "py_in ?entry report"
    using mem by (simp add: rep join_contains)
  then show ?thesis using part1 by blast
qed

theorem age_range_clamped_witness:
  "search no_repr example_df [''age_range'' \<mapsto> PList [PyInt 10, PyInt 70]]
     = Inr ([bala, asha, esha], ''age: 18-65'') \<and>
   search no_repr example_df ([''age_range'' \<mapsto> PList [PyInt 10, PyInt 70]](''age_range'' := None))
     = Inr ([bala, asha, chloe, esha, dev], ''no filters'') \<and>
   [bala, asha, esha] = [r \<leftarrow> [bala, asha, chloe, esha, dev]. 18 \<le> age r \<and> age r \<le> 65] \<and>
   py_in ''age: 18-65'' ''age: 18-65''"
proof -
  have h1: "[''age_range'' \<mapsto> PList [PyInt 10, PyInt 70]] ''age_range'' = Some (PList [PyInt 10, PyInt 70])"
    by simp
  have h2: "example_df \<noteq> []" by (simp add: example_df_def)
  have h3: "search no_repr example_df [''age_range'' \<mapsto> PList [PyInt 10, PyInt 70]]
     = Inr ([bala, asha, esha], ''age: 18-65'')" by code_simp
  have h4: "search no_repr example_df ([''age_range'' \<mapsto> PList [PyInt 10, PyInt 70]](''age_range'' := None))
     = Inr ([bala, asha, chloe, esha, dev], ''no filters'')" by code_simp
  have s: "str_int 18 = ''18''" "str_int 65 = ''65''" by code_simp+
  from age_range_clamped [OF h1 h2 h3] h3 h4 s show ?thesis by simp
qed

section \<open>Numeric thresholds\<close>

lemma other_steps_absent:
  "c ''category'' = None \<Longrightarrow> filter_text R ''category'' category c st = Inr st"
  "c ''gender'' = None \<Longrightarrow> filter_text R ''gender'' gender c st = Inr st"
  "c ''platform'' = None \<Longrightarrow> filter_platform c st = Inr st"
  "c k = None \<Longrightarrow> filter_followers R k l cmp c st = Inr st"
  "c ''min_engagement'' = None \<Longrightarrow> filter_engagement R c st = Inr st"
  by (simp_all add: filter_text_def filter_platform_def filter_followers_def filter_engagement_def)

lemma budget_value:
  assumes "v = PNum (PyInt 7000) \<or> v = PNum (PyFloat (Finite 7000))"
  shows "py_float v = Inr (Finite 7000) \<and> (\<exists>amount. format_comma_2f v = Inr amount)"
  using assms by (auto simp: py_float_def format_comma_2f_def float_max_bound_def)

text \<open>
  C8. With \<open>max_budget\<close> as the only key and 7000 as its value, as an int or as a float,
  the search returns the rows of the catalog whose rate is at most 7000, each as often as
  the catalog has it, in descending order of engagement and then of followers.
\<close>

theorem budget_7000:
  assumes "v = PNum (PyInt 7000) \<or> v = PNum (PyFloat (Finite 7000))"
  shows "\<exists>rs report. search R df [''max_budget'' \<mapsto> v] = Inr (rs, report) \<and>
           rs = sort_values [r \<leftarrow> df. rates_for_charging_inr r \<le> 7000] \<and>
           mset rs = mset [r \<leftarrow> df. rates_for_charging_inr r \<le> 7000] \<and>
           sorted_wrt (\<lambda>x y. overall_engagement y < overall_engagement x \<or>
                              overall_engagement x = overall_engagement y \<and>
                              total_followers y \<le> total_followers x) rs"
proof -
  let ?c = "[''max_budget'' \<mapsto> v]"
  let ?keep = "[r \<leftarrow> df. rates_for_charging_inr r \<le> 7000]"
  have "\<exists>report. search R df ?c = Inr (sort_values ?keep, report)"
  proof (cases "df = []")
    case True
    then show ?thesis by (simp add: search_def sort_values_def)
  next
    case False
    obtain amount where f: "py_float v = Inr (Finite 7000)" and t: "format_comma_2f v = Inr amount"
      using budget_value [OF assms] by blast
    have "filter_budget ?c (df, []) = Inr (?keep, [''max budget: '' @ currency_mark @ amount])"
      by (simp add: filter_budget_def f t le_float_def)
    then have "run_steps (search_steps R ?c) (df, [])
                 = Inr (?keep, [''max budget: '' @ currency_mark @ amount])"
      by (simp add: search_steps_def other_steps_absent filter_age_absent)
    then show ?thesis using False by (simp add: search_def)
  qed
  moreover have "mset (sort_values ?keep) = mset ?keep"
    by (simp add: sort_values_def)
  ultimately show ?thesis using sort_values_sorted by blast
qed

theorem budget_7000_witness:
  "sort_values [r \<leftarrow> example_df. rates_for_charging_inr r \<le> 7000] = [asha, chloe] \<and>
   (\<exists>report. search no_repr example_df [''max_budget'' \<mapsto> PNum (PyInt 7000)]
                = Inr ([asha, chloe], report))"
proof -
  have h: "sort_values [r \<leftarrow> example_df. rates_for_charging_inr r \<le> 7000] = [asha, chloe]"
    by code_simp
  have "PNum (PyInt 7000) = PNum (PyInt 7000) \<or> PNum (PyInt 7000) = PNum (PyFloat (Finite 7000))"
    by simp
  from budget_7000 [OF this, of no_repr example_df] h show ?thesis by auto
qed





end
